theory Spec2Isabelle
  imports Main
begin

section \<open>Data model\<close>

text \<open>
  The timetable generator of CourSys (\<^verbatim>\<open>src/utils/timetableGenerator.tsx\<close>) works on
  the \<^verbatim>\<open>Schedule\<close> and \<^verbatim>\<open>Section\<close> interfaces. A JavaScript string is modelled as a
  \<^typ>\<open>string\<close> (code units below 256), a nullable string as a \<^typ>\<open>string option\<close>,
  an integral \<^verbatim>\<open>number\<close> field as an \<^typ>\<open>int\<close>.
\<close>

record Schedule =
  sch_type :: string
  sch_days :: string
  sch_time :: string
  sch_start :: "string option"
  sch_end :: "string option"
  sch_room :: string
  sch_instructor :: string
  sch_id :: string

record Section =
  sec_RP :: string
  sec_abbreviated_title :: string
  sec_course_code :: string
  sec_credits :: int
  sec_crn :: int
  sec_id :: string
  sec_section :: string
  sec_subject :: string
  sec_term :: int
  sec_year :: int
  sec_seats :: string
  sec_waitlist :: string
  sec_schedule :: "Schedule list"

text \<open>
  Modelled from the spec: the declaration of \<^verbatim>\<open>Course\<close> (\<^verbatim>\<open>src/types/Course\<close>) is not
  among the sources. The spec describes a course as a subject and code key with an ordered
  sequence of candidate sections; the generator reads only \<^verbatim>\<open>course.sections\<close>.
\<close>

record Course =
  crs_subject :: string
  crs_course_code :: string
  crs_sections :: "Section list"

section \<open>JavaScript primitives used by the generator\<close>

text \<open>
  A \<^verbatim>\<open>number\<close> produced by \<^verbatim>\<open>parseInt\<close> is an integer or \<^verbatim>\<open>NaN\<close>: \<open>None\<close> is
  \<^verbatim>\<open>NaN\<close>. Integers are unbounded here; a JavaScript double agrees with them below
  \<open>2^53\<close>, which covers every digit string of up to fifteen characters.
\<close>

type_synonym jsnum = "int option"

definition js_mul :: "jsnum \<Rightarrow> jsnum \<Rightarrow> jsnum" where
  "js_mul a b = (case a of None \<Rightarrow> None | Some x \<Rightarrow> (case b of None \<Rightarrow> None | Some y \<Rightarrow> Some (x * y)))"

definition js_add :: "jsnum \<Rightarrow> jsnum \<Rightarrow> jsnum" where
  "js_add a b = (case a of None \<Rightarrow> None | Some x \<Rightarrow> (case b of None \<Rightarrow> None | Some y \<Rightarrow> Some (x + y)))"

text \<open>\<^verbatim>\<open>a <= b\<close> on numbers: false as soon as one side is \<^verbatim>\<open>NaN\<close>.\<close>

definition js_le :: "jsnum \<Rightarrow> jsnum \<Rightarrow> bool" where
  "js_le a b = (case a of None \<Rightarrow> False | Some x \<Rightarrow> (case b of None \<Rightarrow> False | Some y \<Rightarrow> x \<le> y))"

text \<open>The white space \<^verbatim>\<open>parseInt\<close> skips, among the code units below 256.\<close>

definition is_js_space :: "char \<Rightarrow> bool" where
  "is_js_space c = (of_char c \<in> {9, 10, 11, 12, 13, 32, 160 :: nat})"

text \<open>The value of a character as a digit, whatever the radix (at most 16 here).\<close>

definition digit_val :: "char \<Rightarrow> nat option" where
  "digit_val c =
     (let n = (of_char c :: nat) in
      if 48 \<le> n \<and> n \<le> 57 then Some (n - 48)
      else if 97 \<le> n \<and> n \<le> 102 then Some (n - 87)
      else if 65 \<le> n \<and> n \<le> 70 then Some (n - 55)
      else None)"

definition is_digit :: "nat \<Rightarrow> char \<Rightarrow> bool" where
  "is_digit radix c = (case digit_val c of None \<Rightarrow> False | Some d \<Rightarrow> d < radix)"

fun digits_value :: "nat \<Rightarrow> nat \<Rightarrow> string \<Rightarrow> nat" where
  "digits_value radix acc [] = acc"
| "digits_value radix acc (c # cs) =
     digits_value radix (acc * radix + (case digit_val c of None \<Rightarrow> 0 | Some d \<Rightarrow> d)) cs"

text \<open>
  \<^verbatim>\<open>parseInt(s)\<close> without a radix: leading white space is skipped, one sign is read, a
  prefix \<^verbatim>\<open>0x\<close> or \<^verbatim>\<open>0X\<close> selects radix 16, the longest run of digits is converted, and
  the result is \<^verbatim>\<open>NaN\<close> when that run is empty.
\<close>

definition parseInt :: "string \<Rightarrow> jsnum" where
  "parseInt s =
     (let s1 = dropWhile is_js_space s;
          neg = (case s1 of [] \<Rightarrow> False | c # _ \<Rightarrow> c = CHR ''-'');
          s2 = (case s1 of [] \<Rightarrow> [] | c # cs \<Rightarrow> if c = CHR ''+'' \<or> c = CHR ''-'' then cs else s1);
          hex = (take 2 s2 = ''0x'' \<or> take 2 s2 = ''0X'');
          radix = (if hex then 16 else 10);
          s3 = (if hex then drop 2 s2 else s2);
          z = takeWhile (is_digit radix) s3
      in if z = [] then None
         else Some ((if neg then - 1 else 1) * int (digits_value radix 0 z)))"

text \<open>\<^verbatim>\<open>s.split(sep)\<close> for a one-character separator: never the empty array.\<close>

fun split :: "char \<Rightarrow> string \<Rightarrow> string list" where
  "split sep [] = [[]]"
| "split sep (c # cs) =
     (if c = sep then [] # split sep cs
      else (case split sep cs of [] \<Rightarrow> [[c]] | p # ps \<Rightarrow> (c # p) # ps))"

section \<open>The conflict detector\<close>

text \<open>
  \<^verbatim>\<open>getDays\<close>: the indices of the characters of the day string that are not \<^verbatim>\<open>-\<close>
  (0 is Monday), in increasing order.
\<close>

definition getDays :: "string \<Rightarrow> nat list" where
  "getDays dayStr = filter (\<lambda>i. dayStr ! i \<noteq> CHR ''-'') [0..<length dayStr]"

record TimeRange =
  tr_start :: jsnum
  tr_end :: jsnum

text \<open>
  \<^verbatim>\<open>timeToMinutes\<close>: \<^verbatim>\<open>const [start, end] = time.split('-')\<close> leaves \<^verbatim>\<open>end\<close> undefined
  when the string holds no \<^verbatim>\<open>-\<close>, and \<^verbatim>\<open>end.slice\<close> then raises a \<^verbatim>\<open>TypeError\<close>: the
  result \<open>None\<close>. \<^verbatim>\<open>slice(0, 2)\<close> is \<open>take 2\<close> and \<^verbatim>\<open>slice(2)\<close> is \<open>drop 2\<close>.
\<close>

definition timeToMinutes :: "string \<Rightarrow> TimeRange option" where
  "timeToMinutes time =
     (case split (CHR ''-'') time of
        start # end' # _ \<Rightarrow>
          Some \<lparr> tr_start = js_add (js_mul (parseInt (take 2 start)) (Some 60)) (parseInt (drop 2 start)),
                 tr_end = js_add (js_mul (parseInt (take 2 end')) (Some 60)) (parseInt (drop 2 end')) \<rparr>
      | _ \<Rightarrow> None)"

text \<open>
  \<^verbatim>\<open>hasConflict\<close>: both time strings are decoded before the days are compared, so a
  \<^verbatim>\<open>TypeError\<close> (\<open>None\<close>) is raised even when the entries share no day.
\<close>

definition hasConflict :: "Schedule \<Rightarrow> Schedule \<Rightarrow> bool option" where
  "hasConflict schedule1 schedule2 =
     (let days1 = getDays (sch_days schedule1);
          days2 = getDays (sch_days schedule2)
      in case timeToMinutes (sch_time schedule1) of
           None \<Rightarrow> None
         | Some time1 \<Rightarrow>
             (case timeToMinutes (sch_time schedule2) of
                None \<Rightarrow> None
              | Some time2 \<Rightarrow>
                  (let commonDays = filter (\<lambda>day. day \<in> set days2) days1
                   in if length commonDays = 0 then Some False
                      else Some (\<not> (js_le (tr_end time1) (tr_start time2)
                                     \<or> js_le (tr_end time2) (tr_start time1))))))"

text \<open>
  The loop \<^verbatim>\<open>for (const x of xs) { if (f(x)) return true; }\<close> followed by
  \<^verbatim>\<open>return false\<close>: the first \<^verbatim>\<open>true\<close> or the first exception ends it.
\<close>

fun for_any :: "('a \<Rightarrow> bool option) \<Rightarrow> 'a list \<Rightarrow> bool option" where
  "for_any f [] = Some False"
| "for_any f (x # xs) =
     (case f x of None \<Rightarrow> None | Some True \<Rightarrow> Some True | Some False \<Rightarrow> for_any f xs)"

definition sectionConflicts :: "Section \<Rightarrow> Section list \<Rightarrow> bool option" where
  "sectionConflicts section selectedSections =
     for_any (\<lambda>selected.
       for_any (\<lambda>schedule1.
         for_any (\<lambda>schedule2. hasConflict schedule1 schedule2) (sec_schedule selected))
         (sec_schedule section))
       selectedSections"

section \<open>The combination search\<close>

text \<open>
  The state \<^verbatim>\<open>backtrack\<close> works on: the result array \<^verbatim>\<open>timetables\<close> of the enclosing
  call and the buffer \<^verbatim>\<open>currentTimetable\<close>, which is pushed to and popped from in place.
  \<open>checks\<close> is a ghost counter, absent from the source: the number of calls of
  \<^verbatim>\<open>sectionConflicts\<close> made so far. No result depends on it.
\<close>

record search_state =
  timetables :: "Section list list"
  currentTimetable :: "Section list"
  checks :: nat

text \<open>
  \<^verbatim>\<open>backtrack\<close> and the \<^verbatim>\<open>for\<close> loop of its body (\<open>try_sections\<close>, over the sections
  still to try). \<^verbatim>\<open>maxTimetables\<close> is an integer. \<^verbatim>\<open>courses[courseIndex]\<close> beyond the
  end of the array is undefined and reading its \<^verbatim>\<open>sections\<close> raises: \<open>None\<close>.
\<close>

function backtrack :: "Course list \<Rightarrow> int \<Rightarrow> nat \<Rightarrow> search_state \<Rightarrow> search_state option"
  and try_sections :: "Course list \<Rightarrow> int \<Rightarrow> nat \<Rightarrow> Section list \<Rightarrow> search_state \<Rightarrow> search_state option"
where
  "backtrack courses maxTimetables courseIndex st =
     (if int (length (timetables st)) \<ge> maxTimetables then Some st
      else if courseIndex = length courses
        then Some (st\<lparr>timetables := timetables st @ [currentTimetable st]\<rparr>)
      else if courseIndex < length courses
        then try_sections courses maxTimetables courseIndex (crs_sections (courses ! courseIndex)) st
      else None)"
| "try_sections courses maxTimetables courseIndex [] st = Some st"
| "try_sections courses maxTimetables courseIndex (section # rest) st =
     (case sectionConflicts section (currentTimetable st) of
        None \<Rightarrow> None
      | Some True \<Rightarrow> try_sections courses maxTimetables courseIndex rest (st\<lparr>checks := Suc (checks st)\<rparr>)
      | Some False \<Rightarrow>
          (case backtrack courses maxTimetables (Suc courseIndex)
                  (st\<lparr>currentTimetable := currentTimetable st @ [section], checks := Suc (checks st)\<rparr>) of
             None \<Rightarrow> None
           | Some st' \<Rightarrow>
               try_sections courses maxTimetables courseIndex rest
                 (st'\<lparr>currentTimetable := butlast (currentTimetable st')\<rparr>)))"
  by pat_completeness auto
termination
  by (relation "measures
        [\<lambda>x. case x of
            Inl (courses, m, i, st) \<Rightarrow> 2 * (length courses + 1 - i)
          | Inr (courses, m, i, ss, st) \<Rightarrow> 2 * (length courses - i) + 1,
         \<lambda>x. case x of Inl _ \<Rightarrow> 0 | Inr (courses, m, i, ss, st) \<Rightarrow> length ss]")
     auto

definition search :: "Course list \<Rightarrow> int \<Rightarrow> search_state option" where
  "search courses maxTimetables =
     backtrack courses maxTimetables 0 \<lparr>timetables = [], currentTimetable = [], checks = 0\<rparr>"

text \<open>
  \<^verbatim>\<open>generateTimetables(courses, maxTimetables)\<close>: the result array after
  \<^verbatim>\<open>backtrack(0, [])\<close>, or \<open>None\<close> when a \<^verbatim>\<open>TypeError\<close> escaped.
\<close>

definition generateTimetables :: "Course list \<Rightarrow> int \<Rightarrow> Section list list option" where
  "generateTimetables courses maxTimetables = map_option timetables (search courses maxTimetables)"

text \<open>The default of the second parameter.\<close>

definition generateTimetables_default :: "Course list \<Rightarrow> Section list list option" where
  "generateTimetables_default courses = generateTimetables courses 999"

section \<open>Reference notions\<close>

text \<open>
  The only exception the generator can raise comes from a time string without \<^verbatim>\<open>-\<close>.
  \<open>splittable\<close> says that no schedule entry of the courses has such a time string.
\<close>

definition splittable :: "Course list \<Rightarrow> bool" where
  "splittable courses =
     list_all (\<lambda>course. list_all (\<lambda>section.
       list_all (\<lambda>schedule. CHR ''-'' \<in> set (sch_time schedule)) (sec_schedule section))
       (crs_sections course)) courses"

text \<open>
  A timetable is pairwise conflict-free when \<^verbatim>\<open>sectionConflicts\<close> answers \<^verbatim>\<open>false\<close> for
  each of its sections against each other one, in both orders.
\<close>

fun conflictFree :: "Section list \<Rightarrow> bool" where
  "conflictFree [] = True"
| "conflictFree (s # ss) =
     (list_all (\<lambda>t. sectionConflicts s [t] = Some False \<and> sectionConflicts t [s] = Some False) ss
      \<and> conflictFree ss)"

text \<open>
  The brute-force enumeration of the spec: the Cartesian product of the courses' section
  lists, the first course varying slowest, filtered by the pairwise test.
\<close>

definition bruteForce :: "Course list \<Rightarrow> Section list list" where
  "bruteForce courses = filter conflictFree (product_lists (map crs_sections courses))"

text \<open>Two sections are compatible when neither conflicts with the other.\<close>

definition compatible :: "Section \<Rightarrow> Section \<Rightarrow> bool" where
  "compatible s t = (sectionConflicts s [t] = Some False \<and> sectionConflicts t [s] = Some False)"

text \<open>Every time string of the section's schedule holds a \<^verbatim>\<open>-\<close>.\<close>

definition decodable :: "Section \<Rightarrow> bool" where
  "decodable s = list_all (\<lambda>schedule. CHR ''-'' \<in> set (sch_time schedule)) (sec_schedule s)"

text \<open>
  What the search finds below a partial assignment when no limit stops it: for the section
  lists of the courses still to place, every completion of \<open>cur\<close> the loop would reach,
  in the loop's order. It serves to describe \<open>backtrack\<close> in the proofs.
\<close>

fun solutions :: "Section list list \<Rightarrow> Section list \<Rightarrow> Section list list" where
  "solutions [] cur = [cur]"
| "solutions (secs # rest) cur =
     concat (map (\<lambda>s. if sectionConflicts s cur = Some False then solutions rest (cur @ [s]) else []) secs)"

text \<open>\<open>extFree cur ext\<close>: each section of \<open>ext\<close> passes the test against all that precede it.\<close>

fun extFree :: "Section list \<Rightarrow> Section list \<Rightarrow> bool" where
  "extFree cur [] = True"
| "extFree cur (s # ext) = (sectionConflicts s cur = Some False \<and> extFree (cur @ [s]) ext)"

text \<open>
  The choices of the search as index vectors: one index into each course's section list.
  \<open>choices\<close> lists them with the first course varying slowest, \<open>pick\<close> reads the
  sections an index vector selects, and \<open>lex_less\<close> is the lexicographic order on index
  vectors.
\<close>

definition choices :: "Course list \<Rightarrow> nat list list" where
  "choices courses = product_lists (map (\<lambda>c. [0..<length (crs_sections c)]) courses)"

definition pick :: "Course list \<Rightarrow> nat list \<Rightarrow> Section list" where
  "pick courses v = map (\<lambda>(c, k). crs_sections c ! k) (zip courses v)"

definition lex_less :: "nat list \<Rightarrow> nat list \<Rightarrow> bool" where
  "lex_less v w = ((v, w) \<in> lexord {(a, b). a < b})"

section \<open>Example data\<close>

definition mkSchedule :: "string \<Rightarrow> string \<Rightarrow> string \<Rightarrow> Schedule" where
  "mkSchedule kind dayStr time =
     \<lparr>sch_type = kind, sch_days = dayStr, sch_time = time, sch_start = None, sch_end = None,
      sch_room = ''A100'', sch_instructor = ''TBA'', sch_id = kind @ dayStr @ time\<rparr>"

definition mkSection :: "string \<Rightarrow> Schedule list \<Rightarrow> Section" where
  "mkSection name entries =
     \<lparr>sec_RP = ''-'', sec_abbreviated_title = name, sec_course_code = ''1181'', sec_credits = 3,
      sec_crn = 10001, sec_id = name, sec_section = name, sec_subject = ''CPSC'', sec_term = 10,
      sec_year = 2025, sec_seats = ''10'', sec_waitlist = ''0'', sec_schedule = entries\<rparr>"

definition mkCourse :: "string \<Rightarrow> Section list \<Rightarrow> Course" where
  "mkCourse code secs = \<lparr>crs_subject = ''CPSC'', crs_course_code = code, crs_sections = secs\<rparr>"

definition sectionA1 :: Section where
  "sectionA1 = mkSection ''A1'' [mkSchedule ''Lecture'' ''M-W----'' ''0900-1000'']"

definition sectionA2 :: Section where
  "sectionA2 = mkSection ''A2'' [mkSchedule ''Lecture'' ''M-W----'' ''1000-1100'']"

definition sectionB1 :: Section where
  "sectionB1 = mkSection ''B1'' [mkSchedule ''Lecture'' ''M------'' ''0930-1000'']"

definition sectionC1 :: Section where
  "sectionC1 = mkSection ''C1'' [mkSchedule ''Lecture'' ''-T-----'' ''0900-1000'']"

definition sectionC2 :: Section where
  "sectionC2 = mkSection ''C2'' [mkSchedule ''Lecture'' ''-T-R---'' ''1230-1420'']"

text \<open>A section whose lab entry has a time string without \<^verbatim>\<open>-\<close>.\<close>

definition sectionC3 :: Section where
  "sectionC3 = mkSection ''C3'' [mkSchedule ''Lab'' ''----F--'' ''1430'']"

definition courseA :: Course where
  "courseA = mkCourse ''1050'' [sectionA1, sectionA2]"

definition courseB :: Course where
  "courseB = mkCourse ''1150'' [sectionB1]"

definition courseC :: Course where
  "courseC = mkCourse ''1160'' [sectionC1, sectionC2]"


text \<open>A section with a weekly lecture and a final exam on one date, at the instant 9:30.\<close>

definition examEntry :: Schedule where
  "examEntry = (mkSchedule ''Exam'' ''M------'' ''0930-0930'')
                 \<lparr>sch_start := Some ''2025-04-14'', sch_end := Some ''2025-04-14''\<rparr>"

definition sectionE1 :: Section where
  "sectionE1 = mkSection ''E1'' [mkSchedule ''Lecture'' ''-T-----'' ''0900-1000'', examEntry]"

text \<open>A course whose second section has an entry that cannot be decoded.\<close>

definition courseBad :: Course where
  "courseBad = mkCourse ''1170'' [sectionC1, sectionC3]"

section \<open>Properties of the primitives and of the detector\<close>

lemma split_two_iff: "(\<exists>x y r. split sep s = x # y # r) \<longleftrightarrow> sep \<in> set s"
proof (induction s)
  case Nil
  show ?case by simp
next
  case (Cons c cs)
  have ne: "split sep cs \<noteq> []" by (cases cs) (auto split: list.splits)
  show ?case
  proof (cases "c = sep")
    case True
    with ne show ?thesis by (cases "split sep cs") auto
  next
    case False
    with Cons ne show ?thesis by (cases "split sep cs") auto
  qed
qed

lemma timeToMinutes_None_iff: "timeToMinutes t = None \<longleftrightarrow> CHR ''-'' \<notin> set t"
proof -
  have "timeToMinutes t = None \<longleftrightarrow> \<not> (\<exists>x y r. split (CHR ''-'') t = x # y # r)"
    by (auto simp: timeToMinutes_def split: list.splits)
  then show ?thesis by (simp only: split_two_iff)
qed

lemma hasConflict_None_iff:
  "hasConflict a b = None \<longleftrightarrow> CHR ''-'' \<notin> set (sch_time a) \<or> CHR ''-'' \<notin> set (sch_time b)"
  unfolding timeToMinutes_None_iff [symmetric]
  by (auto simp: hasConflict_def Let_def split: option.splits)

lemma commonDays_empty_iff:
  "filter (\<lambda>day. day \<in> set ys) xs = [] \<longleftrightarrow> set xs \<inter> set ys = {}"
  by (auto simp: filter_empty_conv)

lemma hasConflict_commute: "hasConflict a b = hasConflict b a"
proof -
  have "(set (getDays (sch_days a)) \<inter> set (getDays (sch_days b)) = {})
      = (set (getDays (sch_days b)) \<inter> set (getDays (sch_days a)) = {})"
    by blast
  then show ?thesis
    by (auto simp: hasConflict_def Let_def commonDays_empty_iff split: option.splits)
qed

lemma shared_day_iff:
  "set (getDays da) \<inter> set (getDays db) \<noteq> {} \<longleftrightarrow>
   (\<exists>i. i < length da \<and> i < length db \<and> da ! i \<noteq> CHR ''-'' \<and> db ! i \<noteq> CHR ''-'')"
  by (auto simp: getDays_def)

lemma hasConflict_decoded:
  assumes "timeToMinutes (sch_time a) = Some \<lparr>tr_start = Some sa, tr_end = Some ea\<rparr>"
    and "timeToMinutes (sch_time b) = Some \<lparr>tr_start = Some sb, tr_end = Some eb\<rparr>"
  shows "hasConflict a b =
     Some ((\<exists>i. i < length (sch_days a) \<and> i < length (sch_days b)
                \<and> sch_days a ! i \<noteq> CHR ''-'' \<and> sch_days b ! i \<noteq> CHR ''-'')
           \<and> sa < eb \<and> sb < ea)"
  using assms shared_day_iff [of "sch_days a" "sch_days b"]
  by (auto simp: hasConflict_def Let_def commonDays_empty_iff js_le_def)

lemma for_any_False_iff: "for_any f xs = Some False \<longleftrightarrow> (\<forall>x\<in>set xs. f x = Some False)"
  by (induction xs) (auto split: option.splits bool.splits)

lemma sectionConflicts_False_iff:
  "sectionConflicts s sel = Some False \<longleftrightarrow>
   (\<forall>c\<in>set sel. \<forall>s1\<in>set (sec_schedule s). \<forall>s2\<in>set (sec_schedule c). hasConflict s1 s2 = Some False)"
  by (simp add: sectionConflicts_def for_any_False_iff)

lemma sectionConflicts_single_sym:
  "sectionConflicts a [b] = Some False \<longleftrightarrow> sectionConflicts b [a] = Some False"
proof -
  have "(\<forall>s1\<in>set (sec_schedule x). \<forall>s2\<in>set (sec_schedule y). hasConflict s1 s2 = Some False)
     \<Longrightarrow> (\<forall>s1\<in>set (sec_schedule y). \<forall>s2\<in>set (sec_schedule x). hasConflict s1 s2 = Some False)"
    for x y :: Section
  proof (intro ballI)
    fix s1 s2
    assume h: "\<forall>s1\<in>set (sec_schedule x). \<forall>s2\<in>set (sec_schedule y). hasConflict s1 s2 = Some False"
      and "s1 \<in> set (sec_schedule y)" "s2 \<in> set (sec_schedule x)"
    then have "hasConflict s2 s1 = Some False" by blast
    then show "hasConflict s1 s2 = Some False" by (subst hasConflict_commute)
  qed
  then show ?thesis unfolding sectionConflicts_False_iff by auto
qed

lemma sectionConflicts_False_single:
  "sectionConflicts s sel = Some False \<longleftrightarrow> (\<forall>c\<in>set sel. sectionConflicts s [c] = Some False)"
  unfolding sectionConflicts_False_iff by auto

section \<open>Properties of the search\<close>

lemma take_budget:
  fixes n a :: nat
  shows "take (n - a) A @ take (n - (a + length (take (n - a) A))) B = take (n - a) (A @ B)"
  by (cases "length A \<le> n - a") auto

lemma search_char:
  "courseIndex \<le> length courses \<Longrightarrow> backtrack courses m courseIndex st = Some st' \<Longrightarrow>
     timetables st' = timetables st @ take (nat m - length (timetables st))
        (solutions (map crs_sections (drop courseIndex courses)) (currentTimetable st))
     \<and> currentTimetable st' = currentTimetable st"
  and "courseIndex < length courses \<Longrightarrow> try_sections courses m courseIndex ss st = Some st' \<Longrightarrow>
     timetables st' = timetables st @ take (nat m - length (timetables st))
        (concat (map (\<lambda>s. if sectionConflicts s (currentTimetable st) = Some False
                           then solutions (map crs_sections (drop (Suc courseIndex) courses)) (currentTimetable st @ [s])
                           else []) ss))
     \<and> currentTimetable st' = currentTimetable st"
proof (induction courses m courseIndex st and courses m courseIndex ss st arbitrary: st' and st'
       rule: backtrack_try_sections.induct)
  case (1 courses m i st)
  show ?case
  proof (cases "m \<le> int (length (timetables st))")
    case True
    then have "nat m - length (timetables st) = 0" by simp
    with True "1.prems" show ?thesis by simp
  next
    case False
    note nl = this
    show ?thesis
    proof (cases "i = length courses")
      case True
      from nl have "nat m - length (timetables st) > 0" by simp
      with nl True "1.prems" show ?thesis by auto
    next
      case False
      with "1.prems" have lt: "i < length courses" by simp
      from nl False lt "1.prems" have
        tr: "try_sections courses m i (crs_sections (courses ! i)) st = Some st'" by simp
      have dr: "drop i courses = courses ! i # drop (Suc i) courses"
        using lt by (simp add: Cons_nth_drop_Suc)
      from "1.IH" [OF nl False lt lt tr] show ?thesis by (simp add: dr)
    qed
  qed
next
  case (2 courses m i st)
  then show ?case by simp
next
  case (3 courses m i sec rest st)
  let ?cur = "currentTimetable st"
  let ?f = "\<lambda>c s. if sectionConflicts s c = Some False
                           then solutions (map crs_sections (drop (Suc i) courses)) (c @ [s])
                           else []"
  consider (N) "sectionConflicts sec ?cur = None"
    | (T) "sectionConflicts sec ?cur = Some True"
    | (F) "sectionConflicts sec ?cur = Some False"
    by (cases "sectionConflicts sec ?cur") auto
  then show ?case
  proof cases
    case N
    with "3.prems" show ?thesis by simp
  next
    case T
    with "3.prems" have
      "try_sections courses m i rest (st\<lparr>checks := Suc (checks st)\<rparr>) = Some st'" by simp
    from "3.IH"(1) [OF T refl "3.prems"(1) this] T show ?thesis by (simp cong: if_cong)
  next
    case F
    let ?st1 = "st\<lparr>currentTimetable := ?cur @ [sec], checks := Suc (checks st)\<rparr>"
    from F "3.prems" obtain st2 where
      b: "backtrack courses m (Suc i) ?st1 = Some st2" and
      t: "try_sections courses m i rest (st2\<lparr>currentTimetable := butlast (currentTimetable st2)\<rparr>) = Some st'"
      by (auto split: option.splits)
    from "3.prems"(1) have le: "Suc i \<le> length courses" by simp
    from "3.IH"(2) [OF F refl le b] have
      r1: "timetables st2 = timetables st @ take (nat m - length (timetables st)) (?f ?cur sec)"
      and c1: "currentTimetable st2 = ?cur @ [sec]"
      using F by simp_all
    from "3.IH"(3) [OF F refl b "3.prems"(1) t] c1 have
      r2: "timetables st' = timetables st2 @ take (nat m - length (timetables st2))
             (concat (map (?f ?cur) rest))"
      and c2: "currentTimetable st' = ?cur"
      by (simp_all cong: if_cong)
    have "timetables st' = timetables st @ take (nat m - length (timetables st))
             (?f ?cur sec @ concat (map (?f ?cur) rest))"
      unfolding r2 r1
      using take_budget [of "nat m" "length (timetables st)" "?f ?cur sec" "concat (map (?f ?cur) rest)"]
      by simp
    with c2 show ?thesis by simp
  qed
qed

lemma solutions_product:
  "solutions secss cur = map ((@) cur) (filter (extFree cur) (product_lists secss))"
proof (induction secss arbitrary: cur)
  case Nil
  show ?case by simp
next
  case (Cons secs rest)
  have step: "(if sectionConflicts s cur = Some False then solutions rest (cur @ [s]) else [])
       = map ((@) cur) (filter (extFree cur) (map ((#) s) (product_lists rest)))" for s
    by (simp add: Cons.IH filter_map comp_def)
  show ?case
    by (simp only: solutions.simps product_lists.simps step filter_concat map_concat map_map comp_def)
qed

lemma conflictFree_sorted_wrt: "conflictFree tt = sorted_wrt compatible tt"
  by (induction tt) (auto simp: list_all_iff compatible_def)

lemma sectionConflicts_False_compatible:
  "sectionConflicts s cur = Some False \<longleftrightarrow> (\<forall>c\<in>set cur. compatible c s)"
  unfolding compatible_def
  using sectionConflicts_False_single [of s cur] sectionConflicts_single_sym by blast

lemma extFree_conflictFree:
  "conflictFree cur \<Longrightarrow> extFree cur ext = conflictFree (cur @ ext)"
proof (induction ext arbitrary: cur)
  case Nil
  then show ?case by simp
next
  case (Cons s ext)
  show ?case
  proof (cases "sectionConflicts s cur = Some False")
    case True
    with Cons.prems have "conflictFree (cur @ [s])"
      by (simp add: conflictFree_sorted_wrt sorted_wrt_append sectionConflicts_False_compatible)
    from Cons.IH [OF this] True show ?thesis by simp
  next
    case False
    then have "\<not> conflictFree (cur @ s # ext)"
      by (auto simp: conflictFree_sorted_wrt sorted_wrt_append sectionConflicts_False_compatible)
    with False show ?thesis by simp
  qed
qed

lemma solutions_bruteForce: "solutions (map crs_sections courses) [] = bruteForce courses"
proof -
  have "extFree [] = conflictFree"
    using extFree_conflictFree [of "[]"] by (intro ext) simp
  moreover have "(@) ([] :: Section list) = (\<lambda>x. x)"
    by (intro ext) simp
  ultimately show ?thesis by (simp add: solutions_product bruteForce_def)
qed

lemma generateTimetables_char:
  assumes "generateTimetables courses m = Some tts"
  shows "tts = take (nat m) (bruteForce courses)"
proof -
  from assms obtain st' where
    b: "backtrack courses m 0 \<lparr>timetables = [], currentTimetable = [], checks = 0\<rparr> = Some st'"
    and t: "tts = timetables st'"
    by (auto simp: generateTimetables_def search_def)
  from search_char(1) [OF _ b] t show ?thesis by (simp add: solutions_bruteForce)
qed

lemma conflictFree_nth:
  "conflictFree tt \<longleftrightarrow>
   (\<forall>i<length tt. \<forall>j<length tt. i \<noteq> j \<longrightarrow> sectionConflicts (tt ! i) [tt ! j] = Some False)"
proof
  assume "conflictFree tt"
  then have s: "\<forall>i j. i < j \<longrightarrow> j < length tt \<longrightarrow> compatible (tt ! i) (tt ! j)"
    by (simp add: conflictFree_sorted_wrt sorted_wrt_iff_nth_less)
  show "\<forall>i<length tt. \<forall>j<length tt. i \<noteq> j \<longrightarrow> sectionConflicts (tt ! i) [tt ! j] = Some False"
  proof (intro allI impI)
    fix i j assume "i < length tt" "j < length tt" "i \<noteq> j"
    then consider "i < j" | "j < i" by linarith
    then show "sectionConflicts (tt ! i) [tt ! j] = Some False"
    proof cases
      case 1
      with s \<open>j < length tt\<close> have "compatible (tt ! i) (tt ! j)" by blast
      then show ?thesis by (simp add: compatible_def)
    next
      case 2
      with s \<open>i < length tt\<close> have "compatible (tt ! j) (tt ! i)" by blast
      then show ?thesis by (simp add: compatible_def)
    qed
  qed
next
  assume h: "\<forall>i<length tt. \<forall>j<length tt. i \<noteq> j \<longrightarrow> sectionConflicts (tt ! i) [tt ! j] = Some False"
  have "compatible (tt ! i) (tt ! j)" if "i < j" "j < length tt" for i j
  proof -
    from that have "i < length tt" "i \<noteq> j" "j \<noteq> i" by simp_all
    with h that show ?thesis unfolding compatible_def by blast
  qed
  then show "conflictFree tt"
    by (simp add: conflictFree_sorted_wrt sorted_wrt_iff_nth_less)
qed

lemma splittable_iff:
  "splittable courses \<longleftrightarrow> (\<forall>c\<in>set courses. \<forall>s\<in>set (crs_sections c). decodable s)"
  by (simp add: splittable_def decodable_def list_all_iff)

lemma for_any_None: "for_any f xs = None \<Longrightarrow> \<exists>x\<in>set xs. f x = None"
  by (induction xs) (auto split: option.splits bool.splits)

lemma sectionConflicts_not_None:
  assumes "decodable s" and "\<forall>c\<in>set cur. decodable c"
  shows "sectionConflicts s cur \<noteq> None"
proof
  assume "sectionConflicts s cur = None"
  then obtain c where c: "c \<in> set cur" and
    "for_any (\<lambda>schedule1. for_any (\<lambda>schedule2. hasConflict schedule1 schedule2) (sec_schedule c))
       (sec_schedule s) = None"
    unfolding sectionConflicts_def by (blast dest: for_any_None)
  then obtain s1 where s1: "s1 \<in> set (sec_schedule s)" and
    "for_any (\<lambda>schedule2. hasConflict s1 schedule2) (sec_schedule c) = None"
    by (blast dest: for_any_None)
  then obtain s2 where s2: "s2 \<in> set (sec_schedule c)" and "hasConflict s1 s2 = None"
    by (blast dest: for_any_None)
  then have "CHR ''-'' \<notin> set (sch_time s1) \<or> CHR ''-'' \<notin> set (sch_time s2)"
    by (simp add: hasConflict_None_iff)
  with assms c s1 s2 show False by (auto simp: decodable_def list_all_iff)
qed

lemma search_total:
  "splittable courses \<Longrightarrow> courseIndex \<le> length courses \<Longrightarrow>
     \<forall>c\<in>set (currentTimetable st). decodable c \<Longrightarrow>
     backtrack courses m courseIndex st \<noteq> None"
  and "splittable courses \<Longrightarrow> courseIndex < length courses \<Longrightarrow>
     \<forall>c\<in>set (currentTimetable st). decodable c \<Longrightarrow> \<forall>s\<in>set ss. decodable s \<Longrightarrow>
     try_sections courses m courseIndex ss st \<noteq> None"
proof (induction courses m courseIndex st and courses m courseIndex ss st
       rule: backtrack_try_sections.induct)
  case (1 courses m i st)
  show ?case
  proof (cases "m \<le> int (length (timetables st)) \<or> i = length courses")
    case True
    then show ?thesis by auto
  next
    case False
    with "1.prems" have lt: "i < length courses" by simp
    with "1.prems"(1) have "\<forall>s\<in>set (crs_sections (courses ! i)). decodable s"
      using nth_mem [OF lt] by (auto simp: splittable_iff)
    from "1.IH" [OF _ _ lt "1.prems"(1) lt "1.prems"(3) this] False lt show ?thesis by simp
  qed
next
  case (2 courses m i st)
  show ?case by simp
next
  case (3 courses m i sec rest st)
  let ?cur = "currentTimetable st"
  from "3.prems" have "sectionConflicts sec ?cur \<noteq> None"
    by (intro sectionConflicts_not_None) simp_all
  then consider (T) "sectionConflicts sec ?cur = Some True"
    | (F) "sectionConflicts sec ?cur = Some False"
    by (cases "sectionConflicts sec ?cur") auto
  then show ?case
  proof cases
    case T
    from "3.IH"(1) [OF T refl "3.prems"(1,2)] "3.prems"(3,4) T show ?thesis by simp
  next
    case F
    let ?st1 = "st\<lparr>currentTimetable := ?cur @ [sec], checks := Suc (checks st)\<rparr>"
    from "3.prems" have le: "Suc i \<le> length courses"
      and d1: "\<forall>c\<in>set (currentTimetable ?st1). decodable c" by simp_all
    from "3.IH"(2) [OF F refl "3.prems"(1) le d1] obtain st2 where
      b: "backtrack courses m (Suc i) ?st1 = Some st2" by blast
    from search_char(1) [OF le b] have "currentTimetable st2 = ?cur @ [sec]" by simp
    with "3.prems"(3) have
      d2: "\<forall>c\<in>set (currentTimetable (st2\<lparr>currentTimetable := butlast (currentTimetable st2)\<rparr>)). decodable c"
      by simp
    from "3.IH"(3) [OF F refl b "3.prems"(1,2) d2] "3.prems"(4) F b show ?thesis by simp
  qed
qed

lemma generateTimetables_total:
  "splittable courses \<Longrightarrow> generateTimetables courses m = Some (take (nat m) (bruteForce courses))"
proof -
  assume "splittable courses"
  from search_total(1) [OF this, of 0 "\<lparr>timetables = [], currentTimetable = [], checks = 0\<rparr>" m]
  obtain tts where "generateTimetables courses m = Some tts"
    by (auto simp: generateTimetables_def search_def)
  with generateTimetables_char [OF this] show ?thesis by simp
qed

lemma backtrack_at_limit:
  "m \<le> int (length (timetables st)) \<Longrightarrow> backtrack courses m i st = Some st"
  by simp

lemma try_sections_at_limit:
  "m \<le> int (length (timetables st)) \<Longrightarrow>
   try_sections courses m i ss st =
     (if \<exists>s\<in>set ss. sectionConflicts s (currentTimetable st) = None then None
      else Some (st\<lparr>checks := checks st + length ss\<rparr>))"
proof (induction ss arbitrary: st)
  case Nil
  show ?case by simp
next
  case (Cons s ss)
  consider (N) "sectionConflicts s (currentTimetable st) = None"
    | (T) "sectionConflicts s (currentTimetable st) = Some True"
    | (F) "sectionConflicts s (currentTimetable st) = Some False"
    by (cases "sectionConflicts s (currentTimetable st)") auto
  then show ?case
  proof cases
    case N
    then show ?thesis by simp
  next
    case T
    from Cons.prems have "m \<le> int (length (timetables (st\<lparr>checks := Suc (checks st)\<rparr>)))" by simp
    from Cons.IH [OF this] T show ?thesis by simp
  next
    case F
    from Cons.prems have "m \<le> int (length (timetables (st\<lparr>checks := Suc (checks st)\<rparr>)))" by simp
    from Cons.IH [OF this] F Cons.prems show ?thesis by simp
  qed
qed

section \<open>The order of the enumeration\<close>

lemma lex_less_Cons: "lex_less (a # v) (b # w) \<longleftrightarrow> a < b \<or> a = b \<and> lex_less v w"
  by (simp add: lex_less_def)

lemma sorted_wrt_lex_block:
  assumes "sorted_wrt (<) xs" and "sorted_wrt lex_less vs"
  shows "sorted_wrt lex_less (concat (map (\<lambda>x. map ((#) x) vs) xs))"
  using assms(1)
proof (induction xs)
  case Nil
  show ?case by simp
next
  case (Cons x xs)
  have "sorted_wrt lex_less (map ((#) x) vs)"
    using assms(2) by (simp add: sorted_wrt_map lex_less_Cons)
  moreover have "sorted_wrt lex_less (concat (map (\<lambda>x. map ((#) x) vs) xs))"
    using Cons by simp
  moreover have "lex_less a b"
    if "a \<in> set (map ((#) x) vs)" and "b \<in> set (concat (map (\<lambda>x. map ((#) x) vs) xs))" for a b
  proof -
    from that(1) obtain v where a: "a = x # v" by auto
    from that(2) obtain y w where b: "b = y # w" and "y \<in> set xs" by auto
    with Cons.prems have "x < y" by simp
    with a b show ?thesis by (simp add: lex_less_Cons)
  qed
  ultimately show ?case by (simp add: sorted_wrt_append)
qed

lemma sorted_wrt_lex_product:
  "\<forall>xs\<in>set xss. sorted_wrt (<) xs \<Longrightarrow> sorted_wrt lex_less (product_lists xss)"
  by (induction xss) (simp_all add: sorted_wrt_lex_block)

lemma choices_sorted: "sorted_wrt lex_less (choices courses)"
  unfolding choices_def by (rule sorted_wrt_lex_product) (auto simp: sorted_wrt_iff_nth_less)

lemma pick_Cons: "pick (c # cs) (k # v) = crs_sections c ! k # pick cs v"
  by (simp add: pick_def)

lemma product_pick:
  "product_lists (map crs_sections courses) = map (pick courses) (choices courses)"
proof (induction courses)
  case Nil
  show ?case by (simp add: choices_def pick_def)
next
  case (Cons c cs)
  let ?secs = "crs_sections c"
  let ?n = "length ?secs"
  have ch: "choices (c # cs) = concat (map (\<lambda>k. map ((#) k) (choices cs)) [0..<?n])"
    by (simp add: choices_def)
  have "product_lists (map crs_sections (c # cs))
        = concat (map (\<lambda>x. map ((#) x) (map (pick cs) (choices cs))) ?secs)"
    by (simp add: Cons.IH)
  also have "\<dots> = concat (map (\<lambda>x. map ((#) x) (map (pick cs) (choices cs))) (map ((!) ?secs) [0..<?n]))"
    by (simp only: map_nth)
  also have "\<dots> = concat (map (\<lambda>k. map (pick (c # cs)) (map ((#) k) (choices cs))) [0..<?n])"
    by (simp add: comp_def pick_Cons)
  also have "\<dots> = map (pick (c # cs)) (choices (c # cs))"
    by (simp only: ch map_concat map_map comp_def)
  finally show ?case .
qed

lemma choices_bounds:
  assumes "v \<in> set (choices courses)"
  shows "length v = length courses \<and> (\<forall>c<length courses. v ! c < length (crs_sections (courses ! c)))"
proof -
  from assms have "list_all2 (\<lambda>k ks. k \<in> set ks) v (map (\<lambda>c. [0..<length (crs_sections c)]) courses)"
    by (simp add: choices_def product_lists_set)
  then show ?thesis
    by (auto simp: list_all2_conv_all_nth)
qed

section \<open>The entry-level conflict test\<close>

text \<open>
  C2. For two meeting entries whose time strings decode to minutes (start \<open>sa\<close>, end
  \<open>ea\<close> and start \<open>sb\<close>, end \<open>eb\<close>), \<^verbatim>\<open>hasConflict\<close> returns true if and only if some
  weekday slot is marked in both day patterns and \<open>sa < eb\<close> and \<open>sb < ea\<close>. Hence entries
  without a shared day never conflict, whatever their times, and back-to-back entries
  (\<open>ea = sb\<close>) on a shared day do not conflict.
\<close>

theorem hasConflict_iff_shared_day_and_overlap:
  assumes "timeToMinutes (sch_time entryA) = Some \<lparr>tr_start = Some sa, tr_end = Some ea\<rparr>"
    and "timeToMinutes (sch_time entryB) = Some \<lparr>tr_start = Some sb, tr_end = Some eb\<rparr>"
  shows "hasConflict entryA entryB =
     Some ((\<exists>i. i < length (sch_days entryA) \<and> i < length (sch_days entryB)
                \<and> sch_days entryA ! i \<noteq> CHR ''-'' \<and> sch_days entryB ! i \<noteq> CHR ''-'')
           \<and> sa < eb \<and> sb < ea)"
  using assms by (rule hasConflict_decoded)

theorem hasConflict_iff_shared_day_and_overlap_witness:
  "hasConflict (mkSchedule ''Lecture'' ''M-W----'' ''0900-1001'')
               (mkSchedule ''Lecture'' ''M------'' ''1000-1100'') = Some True
   \<and> hasConflict (mkSchedule ''Lecture'' ''M-W----'' ''0900-1000'')
               (mkSchedule ''Lecture'' ''M------'' ''1000-1100'') = Some False
   \<and> hasConflict (mkSchedule ''Lecture'' ''M------'' ''0900-1100'')
               (mkSchedule ''Lecture'' ''-T-----'' ''0900-1100'') = Some False"
proof -
  have t1: "timeToMinutes (sch_time (mkSchedule ''Lecture'' ''M-W----'' ''0900-1001''))
            = Some \<lparr>tr_start = Some 540, tr_end = Some 601\<rparr>"
    by code_simp
  have t2: "timeToMinutes (sch_time (mkSchedule ''Lecture'' ''M------'' ''1000-1100''))
            = Some \<lparr>tr_start = Some 600, tr_end = Some 660\<rparr>"
    by code_simp
  have t3: "timeToMinutes (sch_time (mkSchedule ''Lecture'' ''M-W----'' ''0900-1000''))
            = Some \<lparr>tr_start = Some 540, tr_end = Some 600\<rparr>"
    by code_simp
  have t4: "timeToMinutes (sch_time (mkSchedule ''Lecture'' ''M------'' ''0900-1100''))
            = Some \<lparr>tr_start = Some 540, tr_end = Some 660\<rparr>"
    by code_simp
  have t5: "timeToMinutes (sch_time (mkSchedule ''Lecture'' ''-T-----'' ''0900-1100''))
            = Some \<lparr>tr_start = Some 540, tr_end = Some 660\<rparr>"
    by code_simp
  have d0: "\<exists>i. i < length ''M-W----'' \<and> i < length ''M------''
              \<and> ''M-W----'' ! i \<noteq> CHR ''-'' \<and> ''M------'' ! i \<noteq> CHR ''-''"
    by (rule exI [of _ 0]) simp
  have d1: "\<not> (\<exists>i. i < length ''M------'' \<and> i < length ''-T-----''
              \<and> ''M------'' ! i \<noteq> CHR ''-'' \<and> ''-T-----'' ! i \<noteq> CHR ''-'')"
  proof -
    have "getDays ''M------'' = [0]" and "getDays ''-T-----'' = [1]"
      by code_simp+
    then show ?thesis
      using shared_day_iff [of "''M------''" "''-T-----''"] by simp
  qed
  show ?thesis
    using hasConflict_iff_shared_day_and_overlap [OF t1 t2]
      hasConflict_iff_shared_day_and_overlap [OF t3 t2]
      hasConflict_iff_shared_day_and_overlap [OF t4 t5] d0 d1
    by (simp add: mkSchedule_def)
qed

text \<open>
  C9. A meeting entry whose time range is the single instant \<open>t\<close> (start equals end) is
  reported as not conflicting with itself, nor with any other entry whose range is the same
  instant, whatever days they share: \<open>end <= start\<close> holds when both are \<open>t\<close>.
\<close>

theorem hasConflict_same_instant:
  assumes "timeToMinutes (sch_time entryA) = Some \<lparr>tr_start = Some t, tr_end = Some t\<rparr>"
    and "timeToMinutes (sch_time entryB) = Some \<lparr>tr_start = Some t, tr_end = Some t\<rparr>"
  shows "hasConflict entryA entryA = Some False \<and> hasConflict entryA entryB = Some False"
  using hasConflict_decoded [OF assms(1) assms(1)] hasConflict_decoded [OF assms(1) assms(2)]
  by simp

theorem hasConflict_same_instant_witness:
  "hasConflict (mkSchedule ''Exam'' ''M------'' ''0900-0900'')
               (mkSchedule ''Exam'' ''M------'' ''0900-0900'') = Some False
   \<and> hasConflict (mkSchedule ''Exam'' ''M------'' ''0900-0900'')
                 (mkSchedule ''Exam'' ''M-W----'' ''0900-0900'') = Some False"
proof -
  have t1: "timeToMinutes (sch_time (mkSchedule ''Exam'' ''M------'' ''0900-0900''))
            = Some \<lparr>tr_start = Some 540, tr_end = Some 540\<rparr>"
    by code_simp
  have t2: "timeToMinutes (sch_time (mkSchedule ''Exam'' ''M-W----'' ''0900-0900''))
            = Some \<lparr>tr_start = Some 540, tr_end = Some 540\<rparr>"
    by code_simp
  show ?thesis
    using hasConflict_same_instant [OF t1 t2] by simp
qed

section \<open>Auxiliary facts on lists\<close>

lemma take_short:
  assumes "take n xs = ys" and "length ys < n"
  shows "xs = ys"
proof -
  from assms have "min n (length xs) < n" by auto
  then have "length xs \<le> n" by simp
  with assms(1) show ?thesis by simp
qed



section \<open>The results of the search\<close>

text \<open>
  C1. Every timetable returned by \<^verbatim>\<open>generateTimetables\<close>, for any courses and any limit,
  is pairwise conflict-free: for sections at two different positions of a returned
  timetable, \<^verbatim>\<open>sectionConflicts\<close> reports no conflict between them (in either order, since
  the positions \<open>i\<close> and \<open>j\<close> are arbitrary).
\<close>

theorem generateTimetables_pairwise_conflict_free:
  assumes "generateTimetables courses limit = Some tts"
    and "tt \<in> set tts" and "i < length tt" and "j < length tt" and "i \<noteq> j"
  shows "sectionConflicts (tt ! i) [tt ! j] = Some False"
proof -
  from generateTimetables_char [OF assms(1)] assms(2) have "tt \<in> set (bruteForce courses)"
    by (auto dest: in_set_takeD)
  then have "conflictFree tt" by (simp add: bruteForce_def)
  with assms(3-5) show ?thesis by (simp add: conflictFree_nth)
qed

theorem generateTimetables_pairwise_conflict_free_witness:
  "generateTimetables [courseA, courseB] 10 = Some [[sectionA2, sectionB1]]
   \<and> sectionConflicts sectionA2 [sectionB1] = Some False
   \<and> sectionConflicts sectionB1 [sectionA2] = Some False"
proof -
  have g: "generateTimetables [courseA, courseB] 10 = Some [[sectionA2, sectionB1]]"
    by code_simp
  from generateTimetables_pairwise_conflict_free [OF g, of "[sectionA2, sectionB1]" 0 1]
    generateTimetables_pairwise_conflict_free [OF g, of "[sectionA2, sectionB1]" 1 0] g
  show ?thesis by simp
qed

text \<open>
  C3. When the limit is at least the number of conflict-free combinations, the search
  returns exactly the brute-force enumeration: the Cartesian product of the courses'
  section lists filtered by the pairwise test, with the same members in the same order
  (hence the same count). It does return whenever every time string holds a \<^verbatim>\<open>-\<close>.
\<close>

theorem generateTimetables_equals_bruteForce:
  assumes "int (length (bruteForce courses)) \<le> limit"
  shows "(splittable courses \<longrightarrow> generateTimetables courses limit = Some (bruteForce courses))
       \<and> (\<forall>tts. generateTimetables courses limit = Some tts \<longrightarrow> tts = bruteForce courses)"
proof -
  from assms have all: "take (nat limit) (bruteForce courses) = bruteForce courses" by simp
  have "generateTimetables courses limit = Some (bruteForce courses)" if "splittable courses"
    using generateTimetables_total [OF that, of limit] by (simp only: all)
  moreover have "tts = bruteForce courses" if "generateTimetables courses limit = Some tts" for tts
    using generateTimetables_char [OF that] by (simp only: all)
  ultimately show ?thesis by blast
qed

theorem generateTimetables_equals_bruteForce_witness:
  "bruteForce [courseA, courseC]
     = [[sectionA1, sectionC1], [sectionA1, sectionC2], [sectionA2, sectionC1], [sectionA2, sectionC2]]
   \<and> generateTimetables [courseA, courseC] 4
     = Some [[sectionA1, sectionC1], [sectionA1, sectionC2], [sectionA2, sectionC1], [sectionA2, sectionC2]]"
proof -
  let ?all = "[[sectionA1, sectionC1], [sectionA1, sectionC2], [sectionA2, sectionC1], [sectionA2, sectionC2]]"
  have g: "generateTimetables [courseA, courseC] 10 = Some ?all"
    by code_simp
  have s: "splittable [courseA, courseC]"
    by code_simp
  from generateTimetables_char [OF g] have "take (nat 10) (bruteForce [courseA, courseC]) = ?all"
    by (rule sym)
  then have b: "bruteForce [courseA, courseC] = ?all"
    by (rule take_short) simp
  have "int (length (bruteForce [courseA, courseC])) \<le> 4"
    by (simp only: b) simp
  from generateTimetables_equals_bruteForce [OF this] s have
    "generateTimetables [courseA, courseC] 4 = Some (bruteForce [courseA, courseC])"
    by (rule conjunct1 [THEN mp])
  with b show ?thesis by (simp only: simp_thms)
qed

text \<open>
  C4. For a limit that is not negative, the list returned by \<^verbatim>\<open>generateTimetables\<close> is
  never longer than the limit, also when more conflict-free combinations exist; at limit
  0 it is empty.
\<close>

theorem generateTimetables_respects_limit:
  assumes "0 \<le> limit" and "generateTimetables courses limit = Some tts"
  shows "int (length tts) \<le> limit"
  using generateTimetables_char [OF assms(2)] assms(1) by simp

theorem generateTimetables_respects_limit_witness:
  "generateTimetables [courseA, courseC] 3
     = Some [[sectionA1, sectionC1], [sectionA1, sectionC2], [sectionA2, sectionC1]]
   \<and> generateTimetables [courseA, courseC] 0 = Some []"
proof -
  have g3: "generateTimetables [courseA, courseC] 3
     = Some [[sectionA1, sectionC1], [sectionA1, sectionC2], [sectionA2, sectionC1]]"
    by code_simp
  have g0: "generateTimetables [courseA, courseC] 0 = Some []"
    by code_simp
  have "(0::int) \<le> 3" and "(0::int) \<le> 0"
    by simp_all
  from generateTimetables_respects_limit [OF this(1) g3]
    generateTimetables_respects_limit [OF this(2) g0] g3 g0
  show ?thesis by simp
qed

text \<open>
  C6. With an empty course list and a limit of at least 1, \<^verbatim>\<open>generateTimetables\<close> returns
  exactly one timetable, the empty sequence.
\<close>

theorem generateTimetables_no_courses:
  assumes "1 \<le> limit"
  shows "generateTimetables [] limit = Some [[]]"
  using assms by (simp add: generateTimetables_def search_def)

theorem generateTimetables_no_courses_witness:
  "generateTimetables [] 1 = Some [[]] \<and> generateTimetables_default [] = Some [[]]"
  using generateTimetables_no_courses [of 1] generateTimetables_no_courses [of 999]
  by (simp add: generateTimetables_default_def)





text \<open>
  C8. \<^verbatim>\<open>generateTimetables\<close> is a function of its two arguments alone (its result array
  and buffer are created by each call), so equal inputs give equal, equally ordered
  outputs. Its results are the first \<open>limit\<close> conflict-free combinations in
  lexicographic order: they are the selections of a strictly lexicographically increasing
  sequence of index vectors, each vector holding one position in every course's section
  list, in the order of the courses.
\<close>

theorem generateTimetables_lexicographic:
  assumes "generateTimetables courses limit = Some tts"
  shows "tts = take (nat limit) (bruteForce courses)
       \<and> (\<exists>idxs. tts = map (pick courses) idxs \<and> sorted_wrt lex_less idxs
            \<and> (\<forall>v\<in>set idxs. length v = length courses
                  \<and> (\<forall>c<length courses. v ! c < length (crs_sections (courses ! c)))))"
proof -
  let ?idxs = "take (nat limit) (filter (\<lambda>v. conflictFree (pick courses v)) (choices courses))"
  have t: "tts = take (nat limit) (bruteForce courses)"
    by (rule generateTimetables_char [OF assms])
  have "bruteForce courses = map (pick courses) (filter (\<lambda>v. conflictFree (pick courses v)) (choices courses))"
    by (simp add: bruteForce_def product_pick filter_map comp_def)
  with t have "tts = map (pick courses) ?idxs"
    by (simp add: take_map)
  moreover have "sorted_wrt lex_less ?idxs"
    by (intro sorted_wrt_take sorted_wrt_filter choices_sorted)
  moreover have "\<forall>v\<in>set ?idxs. length v = length courses
                  \<and> (\<forall>c<length courses. v ! c < length (crs_sections (courses ! c)))"
  proof
    fix v assume "v \<in> set ?idxs"
    then have "v \<in> set (choices courses)" by (auto dest: in_set_takeD)
    then show "length v = length courses
                  \<and> (\<forall>c<length courses. v ! c < length (crs_sections (courses ! c)))"
      by (rule choices_bounds)
  qed
  ultimately show ?thesis using t by blast
qed

theorem generateTimetables_lexicographic_witness:
  "generateTimetables [courseC, courseA] 3
     = Some [[sectionC1, sectionA1], [sectionC1, sectionA2], [sectionC2, sectionA1]]
   \<and> take (nat 3) (bruteForce [courseC, courseA])
     = [[sectionC1, sectionA1], [sectionC1, sectionA2], [sectionC2, sectionA1]]"
proof -
  have g: "generateTimetables [courseC, courseA] 3
     = Some [[sectionC1, sectionA1], [sectionC1, sectionA2], [sectionC2, sectionA1]]"
    by code_simp
  from generateTimetables_lexicographic [OF g] have
    "[[sectionC1, sectionA1], [sectionC1, sectionA2], [sectionC2, sectionA1]]
       = take (nat 3) (bruteForce [courseC, courseA])"
    by (rule conjunct1)
  then have "take (nat 3) (bruteForce [courseC, courseA])
       = [[sectionC1, sectionA1], [sectionC1, sectionA2], [sectionC2, sectionA1]]"
    by (rule sym)
  with g show ?thesis by (rule conjI)
qed

section \<open>What happens once the limit is reached\<close>

text \<open>
  C5, as the spec states it: once the result count has reached the limit the whole search
  halts, no further candidate section being tried and no further conflict check made. The
  code does not do this. With limit 1 the first timetable \<open>[A1, C1]\<close> is stored after two
  checks; the loop over the sections of the second course then still tries \<open>C2\<close> (third
  check), the loop over the first course still tries \<open>A2\<close> (fourth check), and when the
  section tried after the limit has an undecodable time string the call raises instead of
  returning the timetable it has already stored.
\<close>

theorem search_continues_after_limit:
  "backtrack [courseA, courseC] 1 2
      \<lparr>timetables = [], currentTimetable = [sectionA1, sectionC1], checks = 2\<rparr>
     = Some \<lparr>timetables = [[sectionA1, sectionC1]], currentTimetable = [sectionA1, sectionC1], checks = 2\<rparr>
   \<and> try_sections [courseA, courseC] 1 1 [sectionC2]
      \<lparr>timetables = [[sectionA1, sectionC1]], currentTimetable = [sectionA1], checks = 2\<rparr>
     = Some \<lparr>timetables = [[sectionA1, sectionC1]], currentTimetable = [sectionA1], checks = 3\<rparr>
   \<and> search [courseA, courseC] 1
     = Some \<lparr>timetables = [[sectionA1, sectionC1]], currentTimetable = [], checks = 4\<rparr>
   \<and> generateTimetables [courseA, courseBad] 1 = None"
proof -
  have "backtrack [courseA, courseC] 1 2
      \<lparr>timetables = [], currentTimetable = [sectionA1, sectionC1], checks = 2\<rparr>
     = Some \<lparr>timetables = [[sectionA1, sectionC1]], currentTimetable = [sectionA1, sectionC1], checks = 2\<rparr>"
    by simp
  moreover have "try_sections [courseA, courseC] 1 1 [sectionC2]
      \<lparr>timetables = [[sectionA1, sectionC1]], currentTimetable = [sectionA1], checks = 2\<rparr>
     = Some \<lparr>timetables = [[sectionA1, sectionC1]], currentTimetable = [sectionA1], checks = 3\<rparr>"
    by code_simp
  moreover have "search [courseA, courseC] 1
     = Some \<lparr>timetables = [[sectionA1, sectionC1]], currentTimetable = [], checks = 4\<rparr>"
    by code_simp
  moreover have "generateTimetables [courseA, courseBad] 1 = None"
    by code_simp
  ultimately show ?thesis by (intro conjI)
qed

text \<open>
  C5, amended. Once the result count has reached the limit, every call of \<^verbatim>\<open>backtrack\<close>
  returns at its entry and leaves the state as it is: no deeper level is entered and no
  result is added. The loops of the calls in progress are not halted: each still visits all
  its remaining sections and runs \<^verbatim>\<open>sectionConflicts\<close> on every one (one check per
  section, and an exception raised by a check escapes), without any further change of the
  results or of the buffer.
\<close>

theorem limit_stops_recursion_not_loops:
  assumes "maxTimetables \<le> int (length (timetables st))"
  shows "backtrack courses maxTimetables courseIndex st = Some st
       \<and> try_sections courses maxTimetables courseIndex rest st =
           (if \<exists>s\<in>set rest. sectionConflicts s (currentTimetable st) = None then None
            else Some (st\<lparr>checks := checks st + length rest\<rparr>))"
  using assms backtrack_at_limit [OF assms] try_sections_at_limit [OF assms] by simp

theorem limit_stops_recursion_not_loops_witness:
  "backtrack [courseA, courseC] 1 1
      \<lparr>timetables = [[sectionA1, sectionC1]], currentTimetable = [sectionA2], checks = 4\<rparr>
     = Some \<lparr>timetables = [[sectionA1, sectionC1]], currentTimetable = [sectionA2], checks = 4\<rparr>
   \<and> try_sections [courseA, courseC] 1 0 [sectionA2]
      \<lparr>timetables = [[sectionA1, sectionC1]], currentTimetable = [], checks = 3\<rparr>
     = Some \<lparr>timetables = [[sectionA1, sectionC1]], currentTimetable = [], checks = 4\<rparr>"
proof -
  let ?st = "\<lparr>timetables = [[sectionA1, sectionC1]], currentTimetable = [sectionA2], checks = 4\<rparr>"
  let ?st' = "\<lparr>timetables = [[sectionA1, sectionC1]], currentTimetable = [], checks = 3\<rparr>"
  have l: "(1::int) \<le> int (length (timetables ?st))" and l': "(1::int) \<le> int (length (timetables ?st'))"
    by simp_all
  have c: "sectionConflicts sectionA2 [] = Some False"
    by (simp add: sectionConflicts_def)
  from limit_stops_recursion_not_loops [OF l, of "[courseA, courseC]" 1 "[]"]
  have "backtrack [courseA, courseC] 1 1 ?st = Some ?st"
    by (rule conjunct1)
  moreover from limit_stops_recursion_not_loops [OF l', of "[courseA, courseC]" 0 "[sectionA2]"] c
  have "try_sections [courseA, courseC] 1 0 [sectionA2] ?st'
     = Some \<lparr>timetables = [[sectionA1, sectionC1]], currentTimetable = [], checks = 4\<rparr>"
    by simp
  ultimately show ?thesis by (rule conjI)
qed

section \<open>Entries of a single instant\<close>

text \<open>
  C10. Entries of a single date are not left out of the conflict test: \<^verbatim>\<open>hasConflict\<close>
  reads neither the kind of an entry nor its dates, and \<^verbatim>\<open>sectionConflicts\<close> runs it on
  every entry of both sections. So an entry at the single instant \<open>t\<close> conflicts with any
  entry that shares a marked weekday slot and whose range strictly contains \<open>t\<close>; the two
  sections holding them then conflict (\<^verbatim>\<open>sectionConflicts\<close> never answers \<^verbatim>\<open>false\<close>, and
  answers \<^verbatim>\<open>true\<close> when all their time strings can be split), and no timetable returned by
  \<^verbatim>\<open>generateTimetables\<close> holds both.
\<close>

theorem instant_entry_conflicts:
  assumes "exam \<in> set (sec_schedule a)" and "entry \<in> set (sec_schedule b)"
    and "timeToMinutes (sch_time exam) = Some \<lparr>tr_start = Some t, tr_end = Some t\<rparr>"
    and "timeToMinutes (sch_time entry) = Some \<lparr>tr_start = Some s, tr_end = Some e\<rparr>"
    and "s < t" and "t < e"
    and "d < length (sch_days exam)" and "d < length (sch_days entry)"
    and "sch_days exam ! d \<noteq> CHR ''-''" and "sch_days entry ! d \<noteq> CHR ''-''"
  shows "hasConflict (exam\<lparr>sch_type := kind, sch_start := date1, sch_end := date2\<rparr>) entry = Some True
       \<and> hasConflict exam entry = Some True \<and> hasConflict entry exam = Some True
       \<and> sectionConflicts a [b] \<noteq> Some False \<and> sectionConflicts b [a] \<noteq> Some False
       \<and> (decodable a \<and> decodable b \<longrightarrow>
            sectionConflicts a [b] = Some True \<and> sectionConflicts b [a] = Some True)
       \<and> (\<forall>courses limit tts tt. generateTimetables courses limit = Some tts \<longrightarrow> tt \<in> set tts \<longrightarrow>
            \<not> (\<exists>p q. p < length tt \<and> q < length tt \<and> p \<noteq> q \<and> tt ! p = a \<and> tt ! q = b))"
proof -
  have shared: "\<exists>i. i < length (sch_days exam) \<and> i < length (sch_days entry)
                  \<and> sch_days exam ! i \<noteq> CHR ''-'' \<and> sch_days entry ! i \<noteq> CHR ''-''"
    using assms(7-10) by blast
  have h: "hasConflict exam entry = Some True"
    using hasConflict_decoded [OF assms(3,4)] shared assms(5,6) by simp
  then have h': "hasConflict entry exam = Some True"
    by (simp add: hasConflict_commute)
  have k: "hasConflict (exam\<lparr>sch_type := kind, sch_start := date1, sch_end := date2\<rparr>) entry
            = hasConflict exam entry"
    by (simp add: hasConflict_def)
  have ab: "sectionConflicts a [b] \<noteq> Some False"
  proof
    assume "sectionConflicts a [b] = Some False"
    with assms(1,2) have "hasConflict exam entry = Some False"
      by (simp add: sectionConflicts_False_iff)
    with h show False by simp
  qed
  have ba: "sectionConflicts b [a] \<noteq> Some False"
  proof
    assume "sectionConflicts b [a] = Some False"
    with assms(1,2) have "hasConflict entry exam = Some False"
      by (simp add: sectionConflicts_False_iff)
    with h' show False by simp
  qed
  have dec: "sectionConflicts a [b] = Some True \<and> sectionConflicts b [a] = Some True"
    if "decodable a \<and> decodable b"
  proof -
    from that have "sectionConflicts a [b] \<noteq> None" and "sectionConflicts b [a] \<noteq> None"
      by (simp_all add: sectionConflicts_not_None)
    with ab ba show ?thesis by (metis (full_types) option.exhaust)
  qed
  have never: "\<not> (\<exists>p q. p < length tt \<and> q < length tt \<and> p \<noteq> q \<and> tt ! p = a \<and> tt ! q = b)"
    if g: "generateTimetables courses limit = Some tts" and m: "tt \<in> set tts"
    for courses limit tts tt
  proof
    assume "\<exists>p q. p < length tt \<and> q < length tt \<and> p \<noteq> q \<and> tt ! p = a \<and> tt ! q = b"
    then obtain p q where pq: "p < length tt" "q < length tt" "p \<noteq> q" "tt ! p = a" "tt ! q = b"
      by blast
    from generateTimetables_char [OF g] m have "tt \<in> set (bruteForce courses)"
      by (auto dest: in_set_takeD)
    then have "conflictFree tt" by (simp add: bruteForce_def)
    with pq have "sectionConflicts a [b] = Some False" by (auto simp: conflictFree_nth)
    with ab show False by contradiction
  qed
  from h h' k ab ba dec never show ?thesis by (simp only: simp_thms) blast
qed

theorem instant_entry_conflicts_witness:
  "hasConflict examEntry (mkSchedule ''Lecture'' ''M-W----'' ''0900-1000'') = Some True
   \<and> sectionConflicts sectionE1 [sectionA1] = Some True
   \<and> sectionConflicts sectionA1 [sectionE1] = Some True"
proof -
  let ?lecture = "mkSchedule ''Lecture'' ''M-W----'' ''0900-1000''"
  have m1: "examEntry \<in> set (sec_schedule sectionE1)"
    by (simp add: sectionE1_def mkSection_def)
  have m2: "?lecture \<in> set (sec_schedule sectionA1)"
    by (simp add: sectionA1_def mkSection_def)
  have t1: "timeToMinutes (sch_time examEntry) = Some \<lparr>tr_start = Some 570, tr_end = Some 570\<rparr>"
    by code_simp
  have t2: "timeToMinutes (sch_time ?lecture) = Some \<lparr>tr_start = Some 540, tr_end = Some 600\<rparr>"
    by code_simp
  have d: "0 < length (sch_days examEntry)" "0 < length (sch_days ?lecture)"
    "sch_days examEntry ! 0 \<noteq> CHR ''-''" "sch_days ?lecture ! 0 \<noteq> CHR ''-''"
    by (simp_all add: examEntry_def mkSchedule_def)
  have dec: "decodable sectionE1 \<and> decodable sectionA1"
    by code_simp
  have lt: "(540::int) < 570" "(570::int) < 600"
    by simp_all
  note r = instant_entry_conflicts [OF m1 m2 t1 t2 lt d]
  from r have "hasConflict examEntry ?lecture = Some True"
    by (simp only: simp_thms)
  moreover from r dec have "sectionConflicts sectionE1 [sectionA1] = Some True
      \<and> sectionConflicts sectionA1 [sectionE1] = Some True"
    by (simp only: simp_thms)
  ultimately show ?thesis by (simp only: simp_thms)
qed

end
